theory Spec2Isabelle
  imports Main "HOL-Library.Sublist"
begin

section \<open>Python strings\<close>

text \<open>
  A Python \<open>str\<close> is modelled as a \<open>string\<close>, each \<open>char\<close> read as a code point
  below 256.  \<open>is_space\<close> is \<open>str.isspace\<close> on one character (also the class \<open>\s\<close> of
  the \<open>re\<close> module), \<open>lower\<close> is \<open>str.lower\<close>, \<open>strip\<close> is \<open>str.strip()\<close>,
  \<open>split_ws\<close> is \<open>str.split()\<close> and \<open>sublist d s\<close> is the test \<open>d in s\<close>.
\<close>

definition is_space :: "char \<Rightarrow> bool" where
  "is_space c =
     (let n = (of_char c :: nat)
      in (9 \<le> n \<and> n \<le> 13) \<or> (28 \<le> n \<and> n \<le> 32) \<or> n = 133 \<or> n = 160)"

definition lower_char :: "char \<Rightarrow> char" where
  "lower_char c =
     (let n = (of_char c :: nat)
      in if (65 \<le> n \<and> n \<le> 90) \<or> (192 \<le> n \<and> n \<le> 222 \<and> n \<noteq> 215)
         then char_of (n + 32) else c)"

definition lower :: "string \<Rightarrow> string" where
  "lower s = map lower_char s"

definition strip :: "string \<Rightarrow> string" where
  "strip s = rev (dropWhile is_space (rev (dropWhile is_space s)))"

fun split_acc :: "string \<Rightarrow> string \<Rightarrow> string list" where
  "split_acc cur [] = (if cur = [] then [] else [rev cur])"
| "split_acc cur (c # cs) =
     (if is_space c
      then (if cur = [] then split_acc [] cs else rev cur # split_acc [] cs)
      else split_acc (c # cur) cs)"

definition split_ws :: "string \<Rightarrow> string list" where
  "split_ws s = split_acc [] s"

datatype py_error = IndexError | TypeError

section \<open>Configuration\<close>

definition dangerous_commands :: "string list" where
  "dangerous_commands =
     [''rm -rf'', ''deltree'', ''format'', ''dd if='', ''mkfs'',
      ''del /'', ''rd /s'', ''rmdir /s'', '':(){:|:&};:'']"

definition safe_diagnostic_commands :: "string list" where
  "safe_diagnostic_commands =
     [''wmic'', ''systeminfo'', ''ipconfig'', ''netstat'', ''tasklist'',
      ''sfc'', ''dism'', ''chkdsk'', ''dir'', ''powercfg'', ''msinfo32'',
      ''driverquery'', ''where'', ''regsvr32'', ''mdsched.exe'']"

section \<open>The safety classifier: \<open>is_dangerous_command\<close>\<close>

text \<open>
  The function has four \<open>return\<close> statements.  \<open>classify_command\<close> computes which one
  is taken: \<open>DenylistHit\<close> is \<open>return True\<close> after the denylist test, \<open>SafeChkdsk\<close> and
  \<open>SafeOther\<close> are the two \<open>return False\<close> under the allowlist test, and
  \<open>DefaultVerdict\<close> is the final \<open>return False\<close>.  \<open>cmd_lower.split()[0]\<close> raises
  \<open>IndexError\<close> on a text with no token.
\<close>

datatype return_site = DenylistHit | SafeChkdsk | SafeOther | DefaultVerdict

definition classify_command :: "string \<Rightarrow> py_error + return_site" where
  "classify_command cmd_str =
     (let cmd_lower = lower cmd_str
      in if list_ex (\<lambda>danger_cmd. sublist danger_cmd cmd_lower) dangerous_commands
         then Inr DenylistHit
         else (case split_ws cmd_lower of
                 [] \<Rightarrow> Inl IndexError
               | first_word # _ \<Rightarrow>
                   if first_word \<in> set safe_diagnostic_commands
                   then (if first_word = ''chkdsk'' \<and> \<not> sublist ''/f'' cmd_lower
                            \<and> \<not> sublist ''/r'' cmd_lower
                         then Inr SafeChkdsk
                         else if first_word \<noteq> ''chkdsk'' then Inr SafeOther
                         else Inr DefaultVerdict)
                   else Inr DefaultVerdict))"

definition is_dangerous_command :: "string \<Rightarrow> py_error + bool" where
  "is_dangerous_command cmd_str =
     (case classify_command cmd_str of
        Inl e \<Rightarrow> Inl e
      | Inr site \<Rightarrow> Inr (site = DenylistHit))"

text \<open>
  The specification's "contains, case-insensitively": both texts are lowered first.
\<close>
definition contains_ci :: "string \<Rightarrow> string \<Rightarrow> bool" where
  "contains_ci d s = sublist (lower d) (lower s)"

section \<open>Hour buckets: \<open>datetime.strptime(ts_str, "%Y-%m-%d %H")\<close>\<close>

text \<open>
  The library compiles the format to the regular expression
  \<^verbatim>\<open>(\d\d\d\d)-(1[0-2]|0[1-9]|[1-9])-(3[0-1]|[1-2]\d|0[1-9]|[1-9]| [1-9])\s+(2[0-3]|[0-1]\d|\d)\<close>,
  matches it at the start of the text, raises \<open>ValueError\<close> when the text does not match
  or when characters remain after the match, and raises \<open>ValueError\<close> again when the
  numbers are not a date of the calendar (year 0, 30 February).  Each alternative is
  tried in the order written.  \<open>None\<close> is the \<open>ValueError\<close>, which the caller catches.
\<close>

record datetime =
  dt_year :: nat
  dt_month :: nat
  dt_day :: nat
  dt_hour :: nat

definition is_digit :: "char \<Rightarrow> bool" where
  "is_digit c = (let n = (of_char c :: nat) in 48 \<le> n \<and> n \<le> 57)"

definition digit_val :: "char \<Rightarrow> nat" where
  "digit_val c = (of_char c :: nat) - 48"

definition digit_in :: "nat \<Rightarrow> nat \<Rightarrow> char \<Rightarrow> bool" where
  "digit_in lo hi c = (is_digit c \<and> lo \<le> digit_val c \<and> digit_val c \<le> hi)"

fun parse_Y :: "string \<Rightarrow> (nat \<times> string) option" where
  "parse_Y (a # b # c # d # rest) =
     (if is_digit a \<and> is_digit b \<and> is_digit c \<and> is_digit d
      then Some (1000 * digit_val a + 100 * digit_val b + 10 * digit_val c + digit_val d, rest)
      else None)"
| "parse_Y _ = None"

text \<open>One alternative of two characters, \<open>[lo1-hi1][lo2-hi2]\<close>, and one of a single digit.\<close>

fun two_digits :: "nat \<Rightarrow> nat \<Rightarrow> nat \<Rightarrow> nat \<Rightarrow> string \<Rightarrow> (nat \<times> string) option" where
  "two_digits lo1 hi1 lo2 hi2 (a # b # rest) =
     (if digit_in lo1 hi1 a \<and> digit_in lo2 hi2 b
      then Some (10 * digit_val a + digit_val b, rest) else None)"
| "two_digits lo1 hi1 lo2 hi2 _ = None"

fun one_digit :: "nat \<Rightarrow> nat \<Rightarrow> string \<Rightarrow> (nat \<times> string) option" where
  "one_digit lo hi (a # rest) = (if digit_in lo hi a then Some (digit_val a, rest) else None)"
| "one_digit lo hi [] = None"

fun space_digit :: "string \<Rightarrow> (nat \<times> string) option" where
  "space_digit (a # b # rest) =
     (if a = CHR '' '' \<and> digit_in 1 9 b then Some (digit_val b, rest) else None)"
| "space_digit _ = None"

fun first_of :: "(string \<Rightarrow> (nat \<times> string) option) list \<Rightarrow> string \<Rightarrow> (nat \<times> string) option" where
  "first_of [] s = None"
| "first_of (p # ps) s = (case p s of Some r \<Rightarrow> Some r | None \<Rightarrow> first_of ps s)"

definition parse_m :: "string \<Rightarrow> (nat \<times> string) option" where
  "parse_m = first_of [two_digits 1 1 0 2, two_digits 0 0 1 9, one_digit 1 9]"

definition parse_d :: "string \<Rightarrow> (nat \<times> string) option" where
  "parse_d = first_of [two_digits 3 3 0 1, two_digits 1 2 0 9, two_digits 0 0 1 9,
                       one_digit 1 9, space_digit]"

definition parse_H :: "string \<Rightarrow> (nat \<times> string) option" where
  "parse_H = first_of [two_digits 2 2 0 3, two_digits 0 1 0 9, one_digit 0 9]"

fun expect_char :: "char \<Rightarrow> string \<Rightarrow> string option" where
  "expect_char c (a # rest) = (if a = c then Some rest else None)"
| "expect_char c [] = None"

definition spaces1 :: "string \<Rightarrow> string option" where
  "spaces1 s = (case s of a # rest \<Rightarrow> if is_space a then Some (dropWhile is_space rest) else None
                | [] \<Rightarrow> None)"

definition is_leap :: "nat \<Rightarrow> bool" where
  "is_leap y = (y mod 4 = 0 \<and> (y mod 100 \<noteq> 0 \<or> y mod 400 = 0))"

definition days_in_month :: "nat \<Rightarrow> nat \<Rightarrow> nat" where
  "days_in_month y m =
     (if m = 2 then (if is_leap y then 29 else 28)
      else if m = 4 \<or> m = 6 \<or> m = 9 \<or> m = 11 then 30 else 31)"

definition valid_date :: "nat \<Rightarrow> nat \<Rightarrow> nat \<Rightarrow> bool" where
  "valid_date y m d = (1 \<le> y \<and> 1 \<le> m \<and> m \<le> 12 \<and> 1 \<le> d \<and> d \<le> days_in_month y m)"

definition strptime :: "string \<Rightarrow> datetime option" where
  "strptime ts_str =
     (case parse_Y ts_str of None \<Rightarrow> None | Some (y, s1) \<Rightarrow>
      case expect_char CHR ''-'' s1 of None \<Rightarrow> None | Some s2 \<Rightarrow>
      case parse_m s2 of None \<Rightarrow> None | Some (m, s3) \<Rightarrow>
      case expect_char CHR ''-'' s3 of None \<Rightarrow> None | Some s4 \<Rightarrow>
      case parse_d s4 of None \<Rightarrow> None | Some (d, s5) \<Rightarrow>
      case spaces1 s5 of None \<Rightarrow> None | Some s6 \<Rightarrow>
      case parse_H s6 of None \<Rightarrow> None | Some (h, s7) \<Rightarrow>
      if s7 \<noteq> [] then None
      else if valid_date y m d
           then Some \<lparr>dt_year = y, dt_month = m, dt_day = d, dt_hour = h\<rparr>
           else None)"

text \<open>
  Datetimes are compared and subtracted through the number of hours since the start of
  year 1 (the proleptic Gregorian ordinal of the library, times 24, plus the hour).
\<close>

definition days_before_year :: "nat \<Rightarrow> nat" where
  "days_before_year y = (let p = y - 1 in p * 365 + p div 4 - p div 100 + p div 400)"

definition days_before_month :: "nat \<Rightarrow> nat \<Rightarrow> nat" where
  "days_before_month y m = sum_list (map (days_in_month y) [1 ..< m])"

definition to_hours :: "datetime \<Rightarrow> int" where
  "to_hours dt =
     int ((days_before_year (dt_year dt) + days_before_month (dt_year dt) (dt_month dt)
           + dt_day dt) * 24 + dt_hour dt)"

section \<open>Temporal clustering: \<open>find_time_clusters\<close>\<close>

text \<open>
  The dictionary \<open>timestamps\<close> is the list of its items in iteration order.  A cluster
  keeps the two datetimes; the source renders them with \<open>strftime\<close> when it emits the
  cluster.  \<open>scan_clusters\<close> is the \<open>for\<close> loop over \<open>sorted_times\<close>, with the loop
  variables \<open>current_cluster\<close> and \<open>clusters\<close> as arguments.
\<close>

record cluster =
  start_dt :: datetime
  end_dt :: datetime
  count :: int

definition parsed_times :: "(string \<times> int) list \<Rightarrow> (datetime \<times> int) list" where
  "parsed_times timestamps =
     List.map_filter (\<lambda>(ts_str, c). map_option (\<lambda>dt_obj. (dt_obj, c)) (strptime ts_str)) timestamps"

definition sorted_times :: "(string \<times> int) list \<Rightarrow> (datetime \<times> int) list" where
  "sorted_times timestamps = sort_key (\<lambda>x. to_hours (fst x)) (parsed_times timestamps)"

definition emit_if_large :: "int \<Rightarrow> cluster \<Rightarrow> cluster list \<Rightarrow> cluster list" where
  "emit_if_large min_cluster_size cc clusters =
     (if count cc \<ge> min_cluster_size then clusters @ [cc] else clusters)"

fun scan_clusters ::
  "int \<Rightarrow> int \<Rightarrow> cluster option \<Rightarrow> cluster list \<Rightarrow> (datetime \<times> int) list
     \<Rightarrow> cluster option \<times> cluster list" where
  "scan_clusters min_cluster_size max_gap_hours current_cluster clusters [] =
     (current_cluster, clusters)"
| "scan_clusters min_cluster_size max_gap_hours None clusters ((dt_obj, c) # rest) =
     scan_clusters min_cluster_size max_gap_hours
       (Some \<lparr>start_dt = dt_obj, end_dt = dt_obj, count = c\<rparr>) clusters rest"
| "scan_clusters min_cluster_size max_gap_hours (Some cc) clusters ((dt_obj, c) # rest) =
     (if to_hours dt_obj - to_hours (end_dt cc) \<le> max_gap_hours
      then scan_clusters min_cluster_size max_gap_hours
             (Some (cc\<lparr>end_dt := dt_obj, count := count cc + c\<rparr>)) clusters rest
      else scan_clusters min_cluster_size max_gap_hours
             (Some \<lparr>start_dt = dt_obj, end_dt = dt_obj, count = c\<rparr>)
             (emit_if_large min_cluster_size cc clusters) rest)"

definition find_time_clusters :: "(string \<times> int) list \<Rightarrow> int \<Rightarrow> int \<Rightarrow> cluster list" where
  "find_time_clusters timestamps min_cluster_size max_gap_hours =
     (if timestamps = [] then []
      else if sorted_times timestamps = [] then []
      else (case scan_clusters min_cluster_size max_gap_hours None []
                   (sorted_times timestamps) of
              (current_cluster, clusters) \<Rightarrow>
                sort_key (\<lambda>x. - count x)
                  (case current_cluster of
                     None \<Rightarrow> clusters
                   | Some cc \<Rightarrow> emit_if_large min_cluster_size cc clusters)))"

text \<open>
  What the specification calls the member buckets of a cluster: a cluster \<open>c\<close> is built
  from the run \<open>seg\<close> of consecutive buckets when it starts at the first, ends at the last,
  counts their sum, and neighbours in the run are at most \<open>max_gap_hours\<close> apart.
\<close>

definition cluster_of :: "int \<Rightarrow> (datetime \<times> int) list \<Rightarrow> cluster \<Rightarrow> bool" where
  "cluster_of max_gap_hours seg c =
     (seg \<noteq> [] \<and> start_dt c = fst (hd seg) \<and> end_dt c = fst (last seg)
      \<and> count c = sum_list (map snd seg)
      \<and> successively (\<lambda>a b. to_hours (fst b) - to_hours (fst a) \<le> max_gap_hours) seg)"

text \<open>
  What every emitted cluster satisfies: it reaches the minimum, and it is built from
  a run of consecutive buckets of the sorted list.
\<close>

definition emitted_ok :: "int \<Rightarrow> int \<Rightarrow> (datetime \<times> int) list \<Rightarrow> cluster \<Rightarrow> bool" where
  "emitted_ok mcs mgh buckets c =
     (mcs \<le> count c \<and> (\<exists>seg. sublist seg buckets \<and> cluster_of mgh seg c))"

section \<open>Action extraction: \<open>extract_commands_from_llm_response\<close>\<close>

text \<open>
  The source defines the function twice; the second definition (the one with the
  "final safety check") replaces the first when the module is loaded, and is the one
  modelled.

  \<open>re.finditer\<close> scans the text from left to right: at each position it tries the
  pattern, and after a match it goes on at the end of the match.  \<open>finditer\<close> takes the
  matcher of one pattern at one position, which gives the length of the match and the text
  of group 1; a span is (start, end, group 1).  Both patterns need their brackets, so no
  match is empty.
\<close>

type_synonym span = "nat \<times> nat \<times> string"

fun scan :: "(string \<Rightarrow> (nat \<times> string) option) \<Rightarrow> nat \<Rightarrow> nat \<Rightarrow> string \<Rightarrow> span list" where
  "scan m pos skip [] = []"
| "scan m pos (Suc k) (c # cs) = scan m (Suc pos) k cs"
| "scan m pos 0 (c # cs) =
     (case m (c # cs) of
        Some (len, grp) \<Rightarrow> (pos, pos + len, grp) # scan m (Suc pos) (len - 1) cs
      | None \<Rightarrow> scan m (Suc pos) 0 cs)"

definition finditer :: "(string \<Rightarrow> (nat \<times> string) option) \<Rightarrow> string \<Rightarrow> span list" where
  "finditer m response = scan m 0 0 response"

text \<open>
  The command pattern \<^verbatim>\<open>\[\[\*\*\*\s*(.*?)\s*\*\*\*\]\]\<close>.  After the opening bracket the
  first \<open>\s*\<close> takes all the white space there is (taking less never helps: the group
  would only start with the white space left over).  The lazy group then grows one
  character at a time, never over a newline, until what follows is white space and the
  closing bracket.
\<close>

definition closes :: "string \<Rightarrow> nat option" where
  "closes s =
     (if prefix ''***]]'' (dropWhile is_space s)
      then Some (length (takeWhile is_space s) + 5) else None)"

fun lazy_body :: "string \<Rightarrow> (string \<times> nat) option" where
  "lazy_body [] = None"
| "lazy_body (c # cs) =
     (case closes (c # cs) of
        Some n \<Rightarrow> Some ([], n)
      | None \<Rightarrow>
          if c = CHR 0x0A then None
          else (case lazy_body cs of
                  Some (g, n) \<Rightarrow> Some (c # g, Suc n)
                | None \<Rightarrow> None))"

definition command_match_at :: "string \<Rightarrow> (nat \<times> string) option" where
  "command_match_at s =
     (if prefix ''[[***'' s
      then (let r = drop 5 s
            in case lazy_body (dropWhile is_space r) of
                 Some (g, n) \<Rightarrow> Some (5 + length (takeWhile is_space r) + n, g)
               | None \<Rightarrow> None)
      else None)"

text \<open>
  The URL pattern \<^verbatim>\<open>\[\[URL:\s*(https?://[^\s\]]+)\s*\]\]\<close>, matched ignoring case.
\<close>

definition prefix_ci :: "string \<Rightarrow> string \<Rightarrow> bool" where
  "prefix_ci p s = prefix (lower p) (lower s)"

definition url_char :: "char \<Rightarrow> bool" where
  "url_char c = (\<not> is_space c \<and> c \<noteq> CHR '']'')"

definition url_match_at :: "string \<Rightarrow> (nat \<times> string) option" where
  "url_match_at s =
     (if prefix_ci ''[[url:'' s
      then (let r0 = drop 6 s;
                k = length (takeWhile is_space r0);
                r = dropWhile is_space r0;
                n = (if prefix_ci ''https://'' r then 8
                     else if prefix_ci ''http://'' r then 7 else 0);
                run = takeWhile url_char (drop n r);
                after = drop (n + length run) r
            in if n = 0 \<or> run = [] then None
               else if prefix '']]'' (dropWhile is_space after)
               then Some (6 + k + n + length run + length (takeWhile is_space after) + 2,
                          take (n + length run) r)
               else None)
      else None)"

text \<open>
  The context of an item: the last piece of \<open>re.split(r'[.!?]\s+', ...)\<close> of the (at most)
  200 characters before the span.
\<close>

definition is_terminator :: "char \<Rightarrow> bool" where
  "is_terminator c = (c = CHR ''.'' \<or> c = CHR ''!'' \<or> c = CHR ''?'')"

fun split_sentences :: "string \<Rightarrow> bool \<Rightarrow> string \<Rightarrow> string list" where
  "split_sentences cur skipping [] = [rev cur]"
| "split_sentences cur skipping (c # cs) =
     (if skipping \<and> is_space c then split_sentences cur True cs
      else if is_terminator c \<and> (case cs of d # _ \<Rightarrow> is_space d | [] \<Rightarrow> False)
      then rev cur # split_sentences [] True cs
      else split_sentences (c # cur) False cs)"

definition context_before :: "string \<Rightarrow> nat \<Rightarrow> string" where
  "context_before response start_pos =
     (let context_start = start_pos - 200;
          context_text = strip (take (start_pos - context_start) (drop context_start response));
          sentences = split_sentences [] False context_text;
          context = strip (last sentences)
      in if context = [] then ''No context found.'' else context)"

datatype item_type = Command | Url | Invalid_command | Error_item

record action_item =
  item_kind :: item_type
  item_value :: string
  item_context :: string
  original_match_position :: nat

definition url_item :: "string \<Rightarrow> span \<Rightarrow> action_item" where
  "url_item response m =
     (case m of (start_pos, end_pos, grp) \<Rightarrow>
        \<lparr>item_kind = Url, item_value = strip grp,
         item_context = context_before response start_pos,
         original_match_position = start_pos\<rparr>)"

definition processed_indices :: "span list \<Rightarrow> nat list" where
  "processed_indices url_matches =
     concat (map (\<lambda>(start_pos, end_pos, grp). [start_pos ..< end_pos]) url_matches)"

definition is_overlapped :: "nat list \<Rightarrow> span \<Rightarrow> bool" where
  "is_overlapped processed m =
     (case m of (start_pos, end_pos, grp) \<Rightarrow>
        list_ex (\<lambda>i. i \<in> set processed) [start_pos ..< end_pos])"

text \<open>
  \<open>shlex.split\<close> is the tokenizer of the standard library; the model takes it as the
  parameter \<open>shlex_split\<close>, with \<open>None\<close> for its \<open>ValueError\<close>.  \<open>windows\<close> is
  \<open>platform.system() == "Windows"\<close>.
\<close>

definition first_word_lower :: "(string \<Rightarrow> string list option) \<Rightarrow> string \<Rightarrow> string" where
  "first_word_lower shlex_split cmd_text =
     (case shlex_split cmd_text of
        Some (w # _) \<Rightarrow> lower w
      | _ \<Rightarrow> (case split_ws cmd_text of w # _ \<Rightarrow> lower w | [] \<Rightarrow> []))"

definition foreign_commands :: "string list" where
  "foreign_commands = [''which'', ''sudo'', ''apt'', ''yum'', ''dnf'', ''apt-get'']"

definition command_item ::
  "bool \<Rightarrow> (string \<Rightarrow> string list option) \<Rightarrow> string \<Rightarrow> span \<Rightarrow> action_item option" where
  "command_item windows shlex_split response m =
     (case m of (start_pos, end_pos, grp) \<Rightarrow>
        (let cmd_text = strip grp
         in if cmd_text = [] then None
            else (let context = context_before response start_pos;
                      cmd_first_word = first_word_lower shlex_split cmd_text;
                      (kind, val) =
                        (if windows \<and> cmd_first_word \<in> set foreign_commands
                         then (Invalid_command, cmd_text)
                         else if sublist ''memory diagnostic'' (lower cmd_text)
                                 \<or> sublist ''mdsched'' (lower cmd_text)
                         then (Command, ''mdsched.exe'')
                         else if cmd_text = [] then (Error_item, ''[EMPTY COMMAND]'')
                         else (Command, cmd_text))
                  in Some \<lparr>item_kind = kind, item_value = val, item_context = context,
                           original_match_position = start_pos\<rparr>)))"

definition extract_commands_from_llm_response ::
  "bool \<Rightarrow> (string \<Rightarrow> string list option) \<Rightarrow> string \<Rightarrow> action_item list" where
  "extract_commands_from_llm_response windows shlex_split response =
     (let url_matches = finditer url_match_at response;
          processed = processed_indices url_matches;
          command_matches = finditer command_match_at response;
          items = map (url_item response) url_matches
                  @ List.map_filter (command_item windows shlex_split response)
                      (filter (\<lambda>m. \<not> is_overlapped processed m) command_matches)
      in sort_key original_match_position items)"

(*DEFS_END*)

section \<open>Properties of the safety classifier\<close>

lemma denylist_is_lower: "list_all (\<lambda>d. lower d = d) dangerous_commands"
  by code_simp

lemma sublist_lower: "sublist d s \<Longrightarrow> sublist (lower d) (lower s)"
  unfolding lower_def sublist_def by (metis map_append)

lemma denylist_hit_dangerous:
  assumes "d \<in> set dangerous_commands" and "sublist d (lower cmd_str)"
  shows "is_dangerous_command cmd_str = Inr True"
proof -
  from assms have "list_ex (\<lambda>x. sublist x (lower cmd_str)) dangerous_commands"
    unfolding list_ex_iff by blast
  then show ?thesis
    by (simp add: is_dangerous_command_def classify_command_def)
qed

text \<open>
  C5.  Whenever the command text contains, case-insensitively, a fragment of the denylist,
  \<open>is_dangerous_command\<close> returns \<open>True\<close>, whatever the first token and the rest
  of the text are; in particular every text containing \<open>rm -rf\<close> is dangerous.
\<close>
theorem denylist_fragment_always_dangerous:
  "(\<forall>d \<in> set dangerous_commands. contains_ci d cmd_str \<longrightarrow> is_dangerous_command cmd_str = Inr True)
   \<and> (contains_ci ''rm -rf'' cmd_str \<longrightarrow> is_dangerous_command cmd_str = Inr True)
   \<and> (sublist ''rm -rf'' cmd_str \<longrightarrow> is_dangerous_command cmd_str = Inr True)"
proof (intro conjI ballI impI)
  fix d assume d: "d \<in> set dangerous_commands" and c: "contains_ci d cmd_str"
  from d denylist_is_lower have "lower d = d" by (simp add: list_all_iff)
  with c have "sublist d (lower cmd_str)" by (simp add: contains_ci_def)
  with d show "is_dangerous_command cmd_str = Inr True" by (rule denylist_hit_dangerous)
next
  have m: "''rm -rf'' \<in> set dangerous_commands" by (simp add: dangerous_commands_def)
  have l: "lower ''rm -rf'' = ''rm -rf''" by code_simp
  { assume "contains_ci ''rm -rf'' cmd_str"
    then have "sublist ''rm -rf'' (lower cmd_str)" by (simp add: contains_ci_def l)
    with m show "is_dangerous_command cmd_str = Inr True" by (rule denylist_hit_dangerous) }
  { assume "sublist ''rm -rf'' cmd_str"
    then have "sublist (lower ''rm -rf'') (lower cmd_str)" by (rule sublist_lower)
    then have "sublist ''rm -rf'' (lower cmd_str)" by (simp add: l)
    with m show "is_dangerous_command cmd_str = Inr True" by (rule denylist_hit_dangerous) }
qed

theorem denylist_fragment_always_dangerous_witness:
  "''format'' \<in> set dangerous_commands \<and> contains_ci ''format'' ''dir & FORMAT c:''
   \<and> contains_ci ''rm -rf'' ''dir x & RM -RF y'' \<and> sublist ''rm -rf'' ''dir /s & rm -rf y''
   \<and> hd (split_ws (lower ''dir /s & rm -rf y'')) \<in> set safe_diagnostic_commands
   \<and> is_dangerous_command ''dir & FORMAT c:'' = Inr True
   \<and> is_dangerous_command ''dir x & RM -RF y'' = Inr True
   \<and> is_dangerous_command ''dir /s & rm -rf y'' = Inr True"
proof -
  have a: "''format'' \<in> set dangerous_commands" by (simp add: dangerous_commands_def)
  have b: "contains_ci ''format'' ''dir & FORMAT c:''" by code_simp
  have c: "contains_ci ''rm -rf'' ''dir x & RM -RF y''" by code_simp
  have d: "sublist ''rm -rf'' ''dir /s & rm -rf y''" by code_simp
  have e: "hd (split_ws (lower ''dir /s & rm -rf y'')) \<in> set safe_diagnostic_commands" by code_simp
  note t1 = denylist_fragment_always_dangerous [of "''dir & FORMAT c:''"]
  note t2 = denylist_fragment_always_dangerous [of "''dir x & RM -RF y''"]
  note t3 = denylist_fragment_always_dangerous [of "''dir /s & rm -rf y''"]
  from t1 a b have f: "is_dangerous_command ''dir & FORMAT c:'' = Inr True" by blast
  from t2 c have g: "is_dangerous_command ''dir x & RM -RF y'' = Inr True" by blast
  from t3 d have h: "is_dangerous_command ''dir /s & rm -rf y'' = Inr True" by blast
  from a b c d e f g h show ?thesis by blast
qed

text \<open>
  C6.  With no denylist hit and first token \<open>chkdsk\<close>: without \<open>/f\<close> and \<open>/r\<close>
  in the text the allowlist returns \<open>False\<close> (site \<open>SafeChkdsk\<close>); with a repair
  flag the allowlist returns nothing and the final default \<open>return False\<close> is taken.
\<close>
theorem chkdsk_repair_flag_carve_out:
  assumes "\<not> list_ex (\<lambda>d. sublist d (lower cmd_str)) dangerous_commands"
    and "split_ws (lower cmd_str) = ''chkdsk'' # rest"
  shows "classify_command cmd_str =
           (if \<not> sublist ''/f'' (lower cmd_str) \<and> \<not> sublist ''/r'' (lower cmd_str)
            then Inr SafeChkdsk else Inr DefaultVerdict)
         \<and> is_dangerous_command cmd_str = Inr False"
proof -
  have m: "''chkdsk'' \<in> set safe_diagnostic_commands"
    by (simp add: safe_diagnostic_commands_def)
  from assms m show ?thesis
    by (simp add: is_dangerous_command_def classify_command_def)
qed

theorem chkdsk_repair_flag_carve_out_witness:
  "classify_command ''chkdsk C:'' = Inr SafeChkdsk
   \<and> classify_command ''CHKDSK C: /F'' = Inr DefaultVerdict
   \<and> is_dangerous_command ''chkdsk C:'' = Inr False
   \<and> is_dangerous_command ''CHKDSK C: /F'' = Inr False"
proof -
  have a1: "\<not> list_ex (\<lambda>d. sublist d (lower ''chkdsk C:'')) dangerous_commands" by code_simp
  have a2: "split_ws (lower ''chkdsk C:'') = ''chkdsk'' # [''c:'']" by code_simp
  have a3: "\<not> sublist ''/f'' (lower ''chkdsk C:'') \<and> \<not> sublist ''/r'' (lower ''chkdsk C:'')" by code_simp
  have b1: "\<not> list_ex (\<lambda>d. sublist d (lower ''CHKDSK C: /F'')) dangerous_commands" by code_simp
  have b2: "split_ws (lower ''CHKDSK C: /F'') = ''chkdsk'' # [''c:'', ''/f'']" by code_simp
  have b3: "sublist ''/f'' (lower ''CHKDSK C: /F'')" by code_simp
  from chkdsk_repair_flag_carve_out [OF a1 a2] a3 chkdsk_repair_flag_carve_out [OF b1 b2] b3
  show ?thesis by simp
qed

section \<open>Properties of the temporal clustering\<close>

lemma cluster_of_single: "cluster_of mgh [(dt, c)] \<lparr>start_dt = dt, end_dt = dt, count = c\<rparr>"
  by (simp add: cluster_of_def)

lemma cluster_of_extend:
  assumes "cluster_of mgh seg cc" and "to_hours dt - to_hours (end_dt cc) \<le> mgh"
  shows "cluster_of mgh (seg @ [(dt, c)]) (cc\<lparr>end_dt := dt, count := count cc + c\<rparr>)"
  using assms by (auto simp: cluster_of_def successively_append_iff)

lemma emit_if_large_ok:
  assumes "\<forall>c \<in> set cls. emitted_ok mcs mgh buckets c"
    and "buckets = pre @ seg @ post" and "cluster_of mgh seg cc"
  shows "\<forall>c \<in> set (emit_if_large mcs cc cls). emitted_ok mcs mgh buckets c"
  using assms by (auto simp: emit_if_large_def emitted_ok_def)

lemma scan_clusters_inv:
  assumes "scan_clusters mcs mgh cur cls rest = (cur', cls')"
    and "\<forall>c \<in> set cls. emitted_ok mcs mgh (seen @ rest) c"
    and "case cur of None \<Rightarrow> seen = []
         | Some cc \<Rightarrow> \<exists>pre seg. seen = pre @ seg \<and> cluster_of mgh seg cc"
  shows "(\<forall>c \<in> set cls'. emitted_ok mcs mgh (seen @ rest) c)
         \<and> (case cur' of None \<Rightarrow> seen @ rest = []
            | Some cc \<Rightarrow> \<exists>pre seg. seen @ rest = pre @ seg \<and> cluster_of mgh seg cc)"
  using assms
proof (induction rest arbitrary: cur cls seen)
  case Nil
  then show ?case by (auto split: option.splits)
next
  case (Cons b rest)
  obtain dt c where b: "b = (dt, c)" by (cases b)
  have app: "seen @ b # rest = (seen @ [b]) @ rest" by simp
  show ?case
  proof (cases cur)
    case None
    with Cons.prems b have run: "scan_clusters mcs mgh
        (Some \<lparr>start_dt = dt, end_dt = dt, count = c\<rparr>) cls rest = (cur', cls')"
      by simp
    from None Cons.prems(3) have "seen = []" by simp
    then have st: "case Some \<lparr>start_dt = dt, end_dt = dt, count = c\<rparr> of None \<Rightarrow> seen @ [b] = []
         | Some cc \<Rightarrow> \<exists>pre seg. seen @ [b] = pre @ seg \<and> cluster_of mgh seg cc"
      using cluster_of_single [of mgh dt c] b by auto
    from Cons.prems(2) have em: "\<forall>c \<in> set cls. emitted_ok mcs mgh ((seen @ [b]) @ rest) c"
      by simp
    from Cons.IH [OF run em st] show ?thesis by (simp split: option.splits)
  next
    case (Some cc)
    with Cons.prems(3) obtain pre seg where seen: "seen = pre @ seg" and co: "cluster_of mgh seg cc"
      by auto
    show ?thesis
    proof (cases "to_hours dt - to_hours (end_dt cc) \<le> mgh")
      case True
      with Some Cons.prems b have run: "scan_clusters mcs mgh
          (Some (cc\<lparr>end_dt := dt, count := count cc + c\<rparr>)) cls rest = (cur', cls')"
        by simp
      have "seen @ [b] = pre @ (seg @ [(dt, c)])" using seen b by simp
      with cluster_of_extend [OF co True, of c]
      have st: "case Some (cc\<lparr>end_dt := dt, count := count cc + c\<rparr>) of None \<Rightarrow> seen @ [b] = []
         | Some cc \<Rightarrow> \<exists>pre seg. seen @ [b] = pre @ seg \<and> cluster_of mgh seg cc"
        by auto
      from Cons.prems(2) have em: "\<forall>c \<in> set cls. emitted_ok mcs mgh ((seen @ [b]) @ rest) c"
        by simp
      from Cons.IH [OF run em st] show ?thesis by (simp split: option.splits)
    next
      case False
      with Some Cons.prems b have run: "scan_clusters mcs mgh
          (Some \<lparr>start_dt = dt, end_dt = dt, count = c\<rparr>) (emit_if_large mcs cc cls) rest = (cur', cls')"
        by simp
      have st: "case Some \<lparr>start_dt = dt, end_dt = dt, count = c\<rparr> of None \<Rightarrow> seen @ [b] = []
         | Some cc \<Rightarrow> \<exists>pre seg. seen @ [b] = pre @ seg \<and> cluster_of mgh seg cc"
        using cluster_of_single [of mgh dt c] b by auto
      have dec: "(seen @ [b]) @ rest = pre @ seg @ (b # rest)" using seen by simp
      from Cons.prems(2) have "\<forall>c \<in> set cls. emitted_ok mcs mgh ((seen @ [b]) @ rest) c"
        by simp
      from emit_if_large_ok [OF this dec co]
      have em: "\<forall>c \<in> set (emit_if_large mcs cc cls). emitted_ok mcs mgh ((seen @ [b]) @ rest) c" .
      from Cons.IH [OF run em st] show ?thesis by (simp split: option.splits)
    qed
  qed
qed

lemma final_clusters_ok:
  assumes "scan_clusters mcs mgh None [] buckets = (cur, cls)"
  shows "\<forall>c \<in> set (case cur of None \<Rightarrow> cls | Some cc \<Rightarrow> emit_if_large mcs cc cls).
           emitted_ok mcs mgh buckets c"
proof -
  from scan_clusters_inv [OF assms, of "[]"]
  have em: "\<forall>c \<in> set cls. emitted_ok mcs mgh buckets c"
    and st: "case cur of None \<Rightarrow> buckets = []
            | Some cc \<Rightarrow> \<exists>pre seg. buckets = pre @ seg \<and> cluster_of mgh seg cc"
    by (simp_all split: option.splits)
  show ?thesis
  proof (cases cur)
    case None
    with em show ?thesis by simp
  next
    case (Some cc)
    with st obtain pre seg where "buckets = pre @ seg @ []" and "cluster_of mgh seg cc" by auto
    from emit_if_large_ok [OF em this] Some show ?thesis by simp
  qed
qed

lemma sort_desc_count: "sorted_wrt (\<lambda>a b. count b \<le> count a) (sort_key (\<lambda>x. - count x) cls)"
proof -
  have "sorted (map (\<lambda>x. - count x) (sort_key (\<lambda>x. - count x) cls))" by (rule sorted_sort_key)
  then show ?thesis by (simp add: sorted_map)
qed

text \<open>
  C9.  Every cluster that \<open>find_time_clusters\<close> returns has a count of at least
  \<open>min_cluster_size\<close> (so the last open cluster is emitted only when it reaches it),
  is built from a run of consecutive buckets of the sorted list whose neighbours are at
  most \<open>max_gap_hours\<close> apart, and the list is sorted by count, largest first.
\<close>
theorem find_time_clusters_invariants:
  "(\<forall>c \<in> set (find_time_clusters timestamps min_cluster_size max_gap_hours).
      min_cluster_size \<le> count c
      \<and> (\<exists>seg. sublist seg (sorted_times timestamps) \<and> cluster_of max_gap_hours seg c))
   \<and> sorted_wrt (\<lambda>a b. count b \<le> count a)
        (find_time_clusters timestamps min_cluster_size max_gap_hours)"
proof -
  obtain cur cls where run:
    "scan_clusters min_cluster_size max_gap_hours None [] (sorted_times timestamps) = (cur, cls)"
    by (cases "scan_clusters min_cluster_size max_gap_hours None [] (sorted_times timestamps)")
  note ok = final_clusters_ok [OF run]
  show ?thesis
    using ok run sort_desc_count
    by (auto simp: find_time_clusters_def emitted_ok_def)
qed

lemma strptime_1030: "strptime ''2024-03-05 10:30'' = None" by code_simp
lemma strptime_13: "strptime ''2024-03-05 13'' = Some \<lparr>dt_year = 2024, dt_month = 3, dt_day = 5, dt_hour = 13\<rparr>" by code_simp
lemma strptime_10: "strptime ''2024-03-05 10'' = Some \<lparr>dt_year = 2024, dt_month = 3, dt_day = 5, dt_hour = 10\<rparr>" by code_simp
lemma strptime_11: "strptime ''2024-03-05 11'' = Some \<lparr>dt_year = 2024, dt_month = 3, dt_day = 5, dt_hour = 11\<rparr>" by code_simp
lemma days_before_march_2024: "days_before_month 2024 3 = 60"
  by (simp add: days_before_month_def days_in_month_def is_leap_def upt_rec)
lemma to_hours_march_5: "to_hours \<lparr>dt_year = 2024, dt_month = 3, dt_day = 5, dt_hour = h\<rparr> = 17734800 + int h"
  by (simp add: to_hours_def days_before_year_def days_before_march_2024)
lemma sorted_times_example:
  "sorted_times [(''2024-03-05 10'', 1), (''2024-03-05 10:30'', 2), (''2024-03-05 13'', 5)]
   = [(\<lparr>dt_year = 2024, dt_month = 3, dt_day = 5, dt_hour = 10\<rparr>, 1),
      (\<lparr>dt_year = 2024, dt_month = 3, dt_day = 5, dt_hour = 13\<rparr>, 5)]"
  by (simp add: sorted_times_def parsed_times_def List.map_filter_simps
        strptime_1030 strptime_13 strptime_10 to_hours_march_5)

text \<open>
  C2, as the code behaves.  On the buckets 10:00 (1), 10:30 (2) and 13:00 (5), with
  minimum 3 and gap 1, the key 10:30 is not in the hour format and is skipped; the 10:00
  bucket stays below the minimum; the result is the single cluster of the 13:00 bucket,
  with count 5.
\<close>
theorem clusters_of_spec_example:
  "find_time_clusters
     [(''2024-03-05 10'', 1), (''2024-03-05 10:30'', 2), (''2024-03-05 13'', 5)] 3 1
   = [\<lparr>start_dt = \<lparr>dt_year = 2024, dt_month = 3, dt_day = 5, dt_hour = 13\<rparr>,
       end_dt = \<lparr>dt_year = 2024, dt_month = 3, dt_day = 5, dt_hour = 13\<rparr>, count = 5\<rparr>]"
  unfolding find_time_clusters_def sorted_times_example
  by (simp add: to_hours_march_5 emit_if_large_def)

text \<open>
  C2, as stated, fails: the result is not a single cluster starting at 10:00 with count 3.
\<close>
theorem clusters_of_spec_example_counterexample:
  "\<not> (\<exists>c. find_time_clusters
            [(''2024-03-05 10'', 1), (''2024-03-05 10:30'', 2), (''2024-03-05 13'', 5)] 3 1 = [c]
          \<and> dt_hour (start_dt c) = 10 \<and> count c = 3)"
  unfolding find_time_clusters_def sorted_times_example
  by (simp add: to_hours_march_5 emit_if_large_def)

lemma sorted_times_unordered:
  "sorted_times [(''2024-03-05 13'', 5), (''2024-03-05 10'', 1), (''2024-03-05 11'', 2)]
   = [(\<lparr>dt_year = 2024, dt_month = 3, dt_day = 5, dt_hour = 10\<rparr>, 1),
      (\<lparr>dt_year = 2024, dt_month = 3, dt_day = 5, dt_hour = 11\<rparr>, 2),
      (\<lparr>dt_year = 2024, dt_month = 3, dt_day = 5, dt_hour = 13\<rparr>, 5)]"
  by (simp add: sorted_times_def parsed_times_def List.map_filter_simps
        strptime_11 strptime_13 strptime_10 to_hours_march_5)

lemma clusters_unordered:
  "find_time_clusters
     [(''2024-03-05 13'', 5), (''2024-03-05 10'', 1), (''2024-03-05 11'', 2)] 3 1
   = [\<lparr>start_dt = \<lparr>dt_year = 2024, dt_month = 3, dt_day = 5, dt_hour = 13\<rparr>,
       end_dt = \<lparr>dt_year = 2024, dt_month = 3, dt_day = 5, dt_hour = 13\<rparr>, count = 5\<rparr>,
      \<lparr>start_dt = \<lparr>dt_year = 2024, dt_month = 3, dt_day = 5, dt_hour = 10\<rparr>,
       end_dt = \<lparr>dt_year = 2024, dt_month = 3, dt_day = 5, dt_hour = 11\<rparr>, count = 3\<rparr>]"
  unfolding find_time_clusters_def sorted_times_unordered
  by (simp add: to_hours_march_5 emit_if_large_def)

theorem find_time_clusters_invariants_witness:
  "find_time_clusters
     [(''2024-03-05 13'', 5), (''2024-03-05 10'', 1), (''2024-03-05 11'', 2)] 3 1
   = [\<lparr>start_dt = \<lparr>dt_year = 2024, dt_month = 3, dt_day = 5, dt_hour = 13\<rparr>,
       end_dt = \<lparr>dt_year = 2024, dt_month = 3, dt_day = 5, dt_hour = 13\<rparr>, count = 5\<rparr>,
      \<lparr>start_dt = \<lparr>dt_year = 2024, dt_month = 3, dt_day = 5, dt_hour = 10\<rparr>,
       end_dt = \<lparr>dt_year = 2024, dt_month = 3, dt_day = 5, dt_hour = 11\<rparr>, count = 3\<rparr>]
   \<and> (\<exists>seg. sublist seg (sorted_times
          [(''2024-03-05 13'', 5), (''2024-03-05 10'', 1), (''2024-03-05 11'', 2)])
        \<and> cluster_of 1 seg
            \<lparr>start_dt = \<lparr>dt_year = 2024, dt_month = 3, dt_day = 5, dt_hour = 10\<rparr>,
             end_dt = \<lparr>dt_year = 2024, dt_month = 3, dt_day = 5, dt_hour = 11\<rparr>, count = 3\<rparr>)
   \<and> sorted_wrt (\<lambda>a b. count b \<le> count a)
        (find_time_clusters
          [(''2024-03-05 13'', 5), (''2024-03-05 10'', 1), (''2024-03-05 11'', 2)] 3 1)"
  using find_time_clusters_invariants
          [of "[(''2024-03-05 13'', 5), (''2024-03-05 10'', 1), (''2024-03-05 11'', 2)]" 3 1]
  unfolding clusters_unordered by simp

end
